theory Spec2Isabelle
  imports Main "HOL-Library.Multiset"
begin

section \<open>The events collection (src/site/_collections/events.js)\<close>

text \<open>
  The module builds the \<open>currentEvents\<close>, \<open>pastEvents\<close> and \<open>eventTags\<close> collections from
  the event pages of the site. Its imports (\<open>authorsData\<close>, \<open>i18n\<close>, \<open>Img\<close>, the two images of
  \<open>site.json\<close>, \<open>isPastEvent\<close>) and the built-in \<open>String.prototype.localeCompare\<close> are
  collected in the record \<open>env\<close> and passed explicitly. A \<open>throw\<close> is the left injection of
  a sum. Records are typed as the JSDoc of the module types them: a handle is a string, a
  speaker session carries \<open>speaker\<close> and any other session carries \<open>participants\<close>; the
  field that a session type does not read is present in the record but never inspected.
  The field \<open>authorsData\<close> of \<open>env\<close> is the map of the own keys of the JSON object; reading
  a property of that object also finds the properties that every object inherits
  (\<open>authorsData_property\<close>). The imported functions are total: only \<open>getAuthorData\<close> throws.
\<close>

subsection \<open>Data\<close>

datatype error = InvalidAuthor string | TypeError

text \<open>A value of \<open>authorsData.json\<close>; \<open>None\<close> is an absent (nullish) field.\<close>

record author_record =
  a_image :: "string option"
  a_twitter :: "string option"
  a_linkedin :: "string option"

text \<open>\<open>EventPersonCollectionItem\<close>, the object returned by \<open>getAuthorData\<close>.\<close>

record person =
  p_image :: string
  p_title :: string
  p_twitter :: "string option"
  p_linkedin :: "string option"
  p_handle :: string

text \<open>The argument object of the \<open>Img\<close> shortcode.\<close>

record img_args =
  src :: string
  width :: nat
  height :: nat
  alt :: string
  img_class :: "string option"

text \<open>A session of the front matter of an event page.\<close>

record raw_session =
  s_title :: string
  s_description :: string
  s_type :: string
  s_topics :: "string list"
  s_slidesUrl :: "string option"
  s_videoUrl :: "string option"
  s_speaker :: string
  s_participants :: "string list"

text \<open>\<open>EventSessionCollectionItem\<close>: \<open>speaker\<close> is set by the speaker branch of
  \<open>processSession\<close> only, \<open>participants\<close> by the other branch only.\<close>

record session_item =
  title :: string
  description :: string
  type :: string
  topics :: "string list"
  slidesUrl :: "string option"
  videoUrl :: "string option"
  speaker :: "person option"
  participants :: "person list option"
  image :: string

text \<open>A collection item of Eleventy, represented by its \<open>data\<close>; dates are instants.\<close>

record raw_event =
  d_id :: string
  d_title :: string
  d_externalUrl :: "string option"
  d_summary :: string
  d_location :: string
  d_date :: int
  d_image :: "string option"
  d_sessions :: "raw_session list"

text \<open>\<open>EventsCollectionItem\<close>.\<close>

record event_item =
  e_id :: string
  e_title :: string
  e_externalUrl :: "string option"
  e_summary :: string
  e_location :: string
  e_date :: int
  e_isPastEvent :: bool
  e_sessions :: "session_item list"
  e_image :: string

text \<open>The collections object of Eleventy: only \<open>getFilteredByGlob\<close> is called.\<close>

record collections =
  getFilteredByGlob :: "string \<Rightarrow> raw_event list"

record env =
  authorsData :: "string \<rightharpoonup> author_record"
  i18n :: "string \<Rightarrow> string option \<Rightarrow> string"
  Img :: "img_args \<Rightarrow> string"
  defaultAvatarImg :: string
  chromeImg :: string
  isPastEvent :: "raw_event \<Rightarrow> bool"
  localeCompare :: "string \<Rightarrow> string \<Rightarrow> int"

text \<open>An entry of the speakers facet.\<close>

record speaker_tag =
  handle :: string
  tag_title :: string

record event_tags =
  locations :: "string list"
  speakers :: "speaker_tag list"
  topics_tags :: "string list"

subsection \<open>Array built-ins\<close>

text \<open>\<open>Array.prototype.map\<close> with a callback that may throw: the first throw ends the call.\<close>

fun map_throw :: "('a \<Rightarrow> error + 'b) \<Rightarrow> 'a list \<Rightarrow> error + 'b list" where
  "map_throw f [] = Inr []"
| "map_throw f (x # xs) =
     (case f x of
        Inl e \<Rightarrow> Inl e
      | Inr y \<Rightarrow> (case map_throw f xs of Inl e \<Rightarrow> Inl e | Inr ys \<Rightarrow> Inr (y # ys)))"

text \<open>\<open>Array.prototype.sort\<close> with a comparator: a stable sort (ECMAScript 2019), an
  element staying before a later one unless the comparator is positive on them.\<close>

fun sort_insert :: "('a \<Rightarrow> 'a \<Rightarrow> int) \<Rightarrow> 'a \<Rightarrow> 'a list \<Rightarrow> 'a list" where
  "sort_insert cmp x [] = [x]"
| "sort_insert cmp x (y # ys) =
     (if cmp x y \<le> 0 then x # y # ys else y # sort_insert cmp x ys)"

definition array_sort :: "('a \<Rightarrow> 'a \<Rightarrow> int) \<Rightarrow> 'a list \<Rightarrow> 'a list" where
  "array_sort cmp xs = foldr (sort_insert cmp) xs []"

text \<open>\<open>Array.prototype.findIndex\<close>: the first index whose element passes, or \<open>-1\<close>.\<close>

fun findIndex :: "('a \<Rightarrow> bool) \<Rightarrow> 'a list \<Rightarrow> int" where
  "findIndex P [] = -1"
| "findIndex P (x # xs) =
     (if P x then 0 else (let i = findIndex P xs in if i < 0 then -1 else i + 1))"

text \<open>\<open>Array.prototype.filter\<close> with a callback that reads the element and its index.\<close>

definition filter_indexed :: "('a \<Rightarrow> nat \<Rightarrow> bool) \<Rightarrow> 'a list \<Rightarrow> 'a list" where
  "filter_indexed P xs = map fst (filter (\<lambda>(x, i). P x i) (zip xs [0 ..< length xs]))"

text \<open>\<open>[...new Set(xs)]\<close>: the values in the order of their first insertion.\<close>

fun Set_add_all :: "'a list \<Rightarrow> 'a list \<Rightarrow> 'a list" where
  "Set_add_all acc [] = acc"
| "Set_add_all acc (x # xs) = Set_add_all (if x \<in> set acc then acc else acc @ [x]) xs"

definition new_Set :: "'a list \<Rightarrow> 'a list" where
  "new_Set xs = Set_add_all [] xs"

subsection \<open>Comparators of site/_js/utils/events\<close>

text \<open>Modelled from the spec: \<open>sortAsc\<close> of \<open>site/_js/utils/events\<close> is not among the
  sources; the specification names it the comparator "ascending by date" over
  normalized events.\<close>

definition sortAsc :: "event_item \<Rightarrow> event_item \<Rightarrow> int" where
  "sortAsc a b = (if e_date a < e_date b then -1 else if e_date b < e_date a then 1 else 0)"

text \<open>Modelled from the spec: \<open>sortDesc\<close> of \<open>site/_js/utils/events\<close> is not among the
  sources; the specification names it the comparator "descending by date" over
  normalized events.\<close>

definition sortDesc :: "event_item \<Rightarrow> event_item \<Rightarrow> int" where
  "sortDesc a b = (if e_date b < e_date a then -1 else if e_date a < e_date b then 1 else 0)"

subsection \<open>The module\<close>

definition EVENT_PLACEHOLDER :: string where
  "EVENT_PLACEHOLDER = ''image/fuiz5I8Iv7bV8YbrK2PKiY3Vask2/5nwgD8ftJ8DREfN1QF7z.png''"

definition session_img_class :: string where
  "session_img_class = ''flex-shrink-none height-600 width-600 rounded-full gap-right-300''"

text \<open>The names of the properties that a plain object inherits from \<open>Object.prototype\<close>
  (ECMAScript, with its Annex B), whatever its own keys are.\<close>

definition Object_prototype_names :: "string list" where
  "Object_prototype_names =
     [''constructor'', ''hasOwnProperty'', ''isPrototypeOf'', ''propertyIsEnumerable'',
      ''toLocaleString'', ''toString'', ''valueOf'', ''__proto__'', ''__defineGetter__'',
      ''__defineSetter__'', ''__lookupGetter__'', ''__lookupSetter__'']"

text \<open>\<open>authorsData[authorHandle]\<close>: the own property when there is one, else the inherited one,
  else \<open>undefined\<close> (\<open>None\<close>). An inherited value is a function or the prototype object: it
  has no \<open>image\<close>, \<open>twitter\<close> or \<open>linkedin\<close>, which is all that \<open>getAuthorData\<close> reads of it.\<close>

definition authorsData_property :: "env \<Rightarrow> string \<Rightarrow> author_record option" where
  "authorsData_property env authorHandle =
     (case authorsData env authorHandle of
        Some authorData \<Rightarrow> Some authorData
      | None \<Rightarrow>
          if authorHandle \<in> set Object_prototype_names
          then Some \<lparr> a_image = None, a_twitter = None, a_linkedin = None \<rparr>
          else None)"

text \<open>The guard is \<open>typeof authorsData[authorHandle] === 'undefined'\<close>.\<close>

definition getAuthorData :: "env \<Rightarrow> string \<Rightarrow> string \<Rightarrow> error + person" where
  "getAuthorData env authorHandle locale =
     (case authorsData_property env authorHandle of
        None \<Rightarrow> Inl (InvalidAuthor authorHandle)
      | Some authorData \<Rightarrow>
          Inr \<lparr> p_image = (case a_image authorData of Some i \<Rightarrow> i | None \<Rightarrow> defaultAvatarImg env),
                p_title = i18n env (''i18n.authors.'' @ authorHandle @ ''.title'') (Some locale),
                p_twitter = a_twitter authorData,
                p_linkedin = a_linkedin authorData,
                p_handle = authorHandle \<rparr>)"

definition processSession :: "env \<Rightarrow> raw_session \<Rightarrow> string \<Rightarrow> error + session_item" where
  \<comment> \<open>\<open>payload\<close> has no \<open>image\<close> at first: both branches assign it before returning.
     The alternative \<open>payload.title\<close> of the \<open>alt\<close> is never taken, \<open>i18n\<close> returning a string.\<close>
  "processSession env session locale =
     (let payload = \<lparr> title = s_title session,
                      description = s_description session,
                      type = s_type session,
                      topics = s_topics session,
                      slidesUrl = s_slidesUrl session,
                      videoUrl = s_videoUrl session,
                      speaker = None,
                      participants = None,
                      image = [] \<rparr>
      in if s_type session = ''speaker'' then
           (case getAuthorData env (s_speaker session) locale of
              Inl e \<Rightarrow> Inl e
            | Inr sp \<Rightarrow>
                Inr (payload \<lparr> speaker := Some sp,
                               image := Img env \<lparr> src = p_image sp, width = 40, height = 40,
                                                 alt = p_title sp,
                                                 img_class = Some session_img_class \<rparr> \<rparr>))
         else
           (case map_throw (\<lambda>p. getAuthorData env p locale) (s_participants session) of
              Inl e \<Rightarrow> Inl e
            | Inr ps \<Rightarrow>
                (let t = (if length ps = 1 then p_title (ps ! 0)
                          else i18n env ''i18n.events.multiple_participants'' None)
                 in Inr (payload \<lparr> participants := Some ps,
                                   title := t,
                                   image := Img env \<lparr> src = (if length ps = 1 then p_image (ps ! 0)
                                                             else chromeImg env),
                                                     width = 40, height = 40,
                                                     alt = t,
                                                     img_class = Some session_img_class \<rparr> \<rparr>))))"

text \<open>The callback that \<open>getEvents\<close> maps over the retained events.\<close>

definition getEvents_event :: "env \<Rightarrow> string \<Rightarrow> raw_event \<Rightarrow> error + event_item" where
  "getEvents_event env locale event =
     (case map_throw (\<lambda>session. processSession env session locale) (d_sessions event) of
        Inl e \<Rightarrow> Inl e
      | Inr sessions \<Rightarrow>
          Inr \<lparr> e_id = d_id event,
                e_title = d_title event,
                e_externalUrl = d_externalUrl event,
                e_summary = d_summary event,
                e_location = d_location event,
                e_date = d_date event,
                e_isPastEvent = isPastEvent env event,
                e_sessions = sessions,
                e_image = Img env \<lparr> src = (case d_image event of Some i \<Rightarrow> i
                                              | None \<Rightarrow> EVENT_PLACEHOLDER),
                                      width = 400, height = 400,
                                      alt = d_title event,
                                      img_class = None \<rparr> \<rparr>)"

text \<open>\<open>getEvents({collections, filter, sort, locale = 'en'})\<close>: \<open>None\<close> is a \<open>null\<close> filter
  or comparator, and an argument object without \<open>locale\<close>.\<close>

definition getEvents ::
  "env \<Rightarrow> collections \<Rightarrow> (raw_event \<Rightarrow> bool) option \<Rightarrow> (event_item \<Rightarrow> event_item \<Rightarrow> int) option
     \<Rightarrow> string option \<Rightarrow> error + event_item list" where
  "getEvents env colls filterP sortC localeArg =
     (let locale = (case localeArg of None \<Rightarrow> ''en'' | Some l \<Rightarrow> l);
          payload = getFilteredByGlob colls (''./site/'' @ locale @ ''/meet-the-team/events/**/*.md'');
          payload = (case filterP of None \<Rightarrow> payload | Some f \<Rightarrow> filter f payload)
      in case map_throw (getEvents_event env locale) payload of
           Inl e \<Rightarrow> Inl e
         | Inr payload \<Rightarrow>
             (case sortC of None \<Rightarrow> Inr payload | Some cmp \<Rightarrow> Inr (array_sort cmp payload)))"

definition pastEvents :: "env \<Rightarrow> collections \<Rightarrow> error + event_item list" where
  "pastEvents env colls =
     getEvents env colls (Some (\<lambda>event. isPastEvent env event)) (Some sortDesc) None"

definition currentEvents :: "env \<Rightarrow> collections \<Rightarrow> error + event_item list" where
  "currentEvents env colls =
     getEvents env colls (Some (\<lambda>event. isPastEvent env event = False)) (Some sortAsc) None"

text \<open>The callback of the \<open>flatMap\<close> in \<open>uniqueSpeakers\<close>; reading \<open>participants\<close> of a
  session that has neither field is a \<open>TypeError\<close>.\<close>

definition session_speakers :: "session_item \<Rightarrow> error + speaker_tag list" where
  "session_speakers s =
     (case speaker s of
        Some sp \<Rightarrow> Inr [\<lparr> handle = p_handle sp, tag_title = p_title sp \<rparr>]
      | None \<Rightarrow>
          (case participants s of
             None \<Rightarrow> Inl TypeError
           | Some ps \<Rightarrow> Inr (map (\<lambda>p. \<lparr> handle = p_handle p, tag_title = p_title p \<rparr>) ps)))"

definition rawSpeakers :: "event_item list \<Rightarrow> error + speaker_tag list" where
  "rawSpeakers events =
     (case map_throw (\<lambda>e. case map_throw session_speakers (e_sessions e) of
                             Inl err \<Rightarrow> Inl err
                           | Inr xss \<Rightarrow> Inr (concat xss)) events of
        Inl err \<Rightarrow> Inl err
      | Inr yss \<Rightarrow> Inr (concat yss))"

definition uniqueSpeakers :: "env \<Rightarrow> event_item list \<Rightarrow> error + speaker_tag list" where
  "uniqueSpeakers env events =
     (case rawSpeakers events of
        Inl err \<Rightarrow> Inl err
      | Inr raw \<Rightarrow>
          Inr (array_sort (\<lambda>a b. localeCompare env (tag_title a) (tag_title b))
                 (filter_indexed
                    (\<lambda>s i. findIndex (\<lambda>first. handle s = handle first) raw = int i) raw)))"

definition uniqueTopics :: "env \<Rightarrow> event_item list \<Rightarrow> string list" where
  "uniqueTopics env events =
     array_sort (\<lambda>a b. localeCompare env a b)
       (new_Set (concat (map (\<lambda>e. concat (map topics (e_sessions e))) events)))"

definition uniqueLocations :: "env \<Rightarrow> event_item list \<Rightarrow> string list" where
  "uniqueLocations env events =
     array_sort (\<lambda>a b. localeCompare env a b) (new_Set (map e_location events))"

definition eventTags :: "env \<Rightarrow> collections \<Rightarrow> error + event_tags" where
  "eventTags env colls =
     (case getEvents env colls None None None of
        Inl err \<Rightarrow> Inl err
      | Inr events \<Rightarrow>
          (let ls = uniqueLocations env events
           in case uniqueSpeakers env events of
                Inl err \<Rightarrow> Inl err
              | Inr sps \<Rightarrow>
                  Inr \<lparr> locations = ls, speakers = sps, topics_tags = uniqueTopics env events \<rparr>))"

subsection \<open>Notions used in the statements\<close>

text \<open>The glob that \<open>getEvents\<close> passes to the collections without a \<open>locale\<close> argument.\<close>

definition en_glob :: string where
  "en_glob = ''./site/en/meet-the-team/events/**/*.md''"

text \<open>The handles that \<open>processSession\<close> resolves for a session.\<close>

definition session_handles :: "raw_session \<Rightarrow> string list" where
  "session_handles session =
     (if s_type session = ''speaker'' then [s_speaker session] else s_participants session)"

text \<open>Some session of the event resolves a handle that is no key of \<open>authorsData\<close>.\<close>

definition unknown_author :: "env \<Rightarrow> raw_event \<Rightarrow> bool" where
  "unknown_author env event =
     list_ex (\<lambda>session. list_ex (\<lambda>h. authorsData env h = None) (session_handles session))
       (d_sessions event)"

text \<open>Some session of the event resolves a handle that is no key of \<open>authorsData\<close> and
  no name of an inherited property either.\<close>

definition unknown_plain_author :: "env \<Rightarrow> raw_event \<Rightarrow> bool" where
  "unknown_plain_author env event =
     list_ex (\<lambda>session.
                list_ex (\<lambda>h. authorsData env h = None \<and> h \<notin> set Object_prototype_names)
                  (session_handles session))
       (d_sessions event)"

text \<open>The events that \<open>getEvents\<close> normalizes: those of the glob that pass the filter.\<close>

definition retained ::
  "collections \<Rightarrow> (raw_event \<Rightarrow> bool) option \<Rightarrow> string option \<Rightarrow> raw_event list" where
  "retained colls filterP localeArg =
     (let payload = getFilteredByGlob colls
                      (''./site/'' @ (case localeArg of None \<Rightarrow> ''en'' | Some l \<Rightarrow> l)
                         @ ''/meet-the-team/events/**/*.md'')
      in case filterP of None \<Rightarrow> payload | Some f \<Rightarrow> filter f payload)"

text \<open>The entries that \<open>uniqueSpeakers\<close> keeps, before it sorts them.\<close>

definition first_handles :: "speaker_tag list \<Rightarrow> speaker_tag list" where
  "first_handles raw =
     filter_indexed (\<lambda>s i. findIndex (\<lambda>first. handle s = handle first) raw = int i) raw"

subsection \<open>Sample data\<close>

definition ex_authorsData :: "string \<rightharpoonup> author_record" where
  "ex_authorsData =
     [''alice'' \<mapsto> \<lparr> a_image = Some ''image/alice.jpg'', a_twitter = Some ''alice_tw'',
                     a_linkedin = None \<rparr>,
      ''bob'' \<mapsto> \<lparr> a_image = None, a_twitter = None, a_linkedin = Some ''bob_li'' \<rparr>,
      ''carol'' \<mapsto> \<lparr> a_image = Some ''image/carol.jpg'', a_twitter = None, a_linkedin = None \<rparr>]"

text \<open>A comparison of strings by character codes, standing for \<open>localeCompare\<close>.\<close>

fun ex_localeCompare :: "string \<Rightarrow> string \<Rightarrow> int" where
  "ex_localeCompare [] [] = 0"
| "ex_localeCompare [] (y # ys) = -1"
| "ex_localeCompare (x # xs) [] = 1"
| "ex_localeCompare (x # xs) (y # ys) =
     (if (of_char x :: nat) < of_char y then -1
      else if (of_char y :: nat) < of_char x then 1
      else ex_localeCompare xs ys)"

text \<open>The instant 2023-01-01T00:00:00Z, in milliseconds.\<close>

definition ex_now :: int where
  "ex_now = 1672531200000"

text \<open>An environment whose \<open>i18n\<close> answers with the key it is asked and whose \<open>Img\<close>
  answers with the source of the image; an event is past when its date is at or before
  \<open>ex_now\<close>.\<close>

definition ex_env :: env where
  "ex_env = \<lparr> authorsData = ex_authorsData,
              i18n = (\<lambda>key locale. key),
              Img = (\<lambda>args. src args),
              defaultAvatarImg = ''image/default-avatar.jpg'',
              chromeImg = ''image/chrome.png'',
              isPastEvent = (\<lambda>event. d_date event \<le> ex_now),
              localeCompare = ex_localeCompare \<rparr>"

definition ex_speaker_session :: "string \<Rightarrow> raw_session" where
  "ex_speaker_session h =
     \<lparr> s_title = ''Talk'', s_description = ''A talk'', s_type = ''speaker'', s_topics = [''css''],
       s_slidesUrl = None, s_videoUrl = None, s_speaker = h, s_participants = [] \<rparr>"

definition ex_panel_session :: "string list \<Rightarrow> raw_session" where
  "ex_panel_session hs =
     \<lparr> s_title = ''Panel'', s_description = ''A panel'', s_type = ''panel'',
       s_topics = [''web'', ''css''], s_slidesUrl = None, s_videoUrl = None, s_speaker = [],
       s_participants = hs \<rparr>"

definition ex_event :: "string \<Rightarrow> int \<Rightarrow> string \<Rightarrow> raw_session list \<Rightarrow> raw_event" where
  "ex_event i d loc ss =
     \<lparr> d_id = i, d_title = ''Event '' @ i, d_externalUrl = None, d_summary = ''Summary'',
       d_location = loc, d_date = d, d_image = None, d_sessions = ss \<rparr>"

text \<open>Collections that hold the events \<open>evs\<close> under the glob \<open>g\<close> and nothing elsewhere.\<close>

definition ex_collections :: "string \<Rightarrow> raw_event list \<Rightarrow> collections" where
  "ex_collections g evs = \<lparr> getFilteredByGlob = (\<lambda>glob. if glob = g then evs else []) \<rparr>"

text \<open>An event of 2020 with a talk by alice, an event of 2099 with a panel of bob and carol.\<close>

definition ex_scenario :: collections where
  "ex_scenario =
     ex_collections en_glob
       [ex_event ''1'' 1577836800000 ''London'' [ex_speaker_session ''alice''],
        ex_event ''2'' 4070908800000 ''Paris'' [ex_panel_session [''bob'', ''carol'']]]"

definition ex_item_1 :: event_item where
  "ex_item_1 =
     \<lparr> e_id = ''1'', e_title = ''Event 1'', e_externalUrl = None, e_summary = ''Summary'',
       e_location = ''London'', e_date = 1577836800000, e_isPastEvent = True,
       e_sessions =
         [\<lparr> title = ''Talk'', description = ''A talk'', type = ''speaker'', topics = [''css''],
            slidesUrl = None, videoUrl = None,
            speaker = Some \<lparr> p_image = ''image/alice.jpg'', p_title = ''i18n.authors.alice.title'',
                             p_twitter = Some ''alice_tw'', p_linkedin = None,
                             p_handle = ''alice'' \<rparr>,
            participants = None, image = ''image/alice.jpg'' \<rparr>],
       e_image = ''image/fuiz5I8Iv7bV8YbrK2PKiY3Vask2/5nwgD8ftJ8DREfN1QF7z.png'' \<rparr>"

definition ex_item_2 :: event_item where
  "ex_item_2 =
     \<lparr> e_id = ''2'', e_title = ''Event 2'', e_externalUrl = None, e_summary = ''Summary'',
       e_location = ''Paris'', e_date = 4070908800000, e_isPastEvent = False,
       e_sessions =
         [\<lparr> title = ''i18n.events.multiple_participants'', description = ''A panel'',
            type = ''panel'', topics = [''web'', ''css''], slidesUrl = None, videoUrl = None,
            speaker = None,
            participants =
              Some [\<lparr> p_image = ''image/default-avatar.jpg'', p_title = ''i18n.authors.bob.title'',
                      p_twitter = None, p_linkedin = Some ''bob_li'', p_handle = ''bob'' \<rparr>,
                    \<lparr> p_image = ''image/carol.jpg'', p_title = ''i18n.authors.carol.title'',
                      p_twitter = None, p_linkedin = None, p_handle = ''carol'' \<rparr>],
            image = ''image/chrome.png'' \<rparr>],
       e_image = ''image/fuiz5I8Iv7bV8YbrK2PKiY3Vask2/5nwgD8ftJ8DREfN1QF7z.png'' \<rparr>"

text \<open>The first event again, its speaker carrying another title.\<close>

definition ex_retitled :: event_item where
  "ex_retitled =
     ex_item_1 \<lparr> e_id := ''3'',
                 e_sessions :=
                   map (\<lambda>s. s \<lparr> speaker := map_option (\<lambda>p. p \<lparr> p_title := ''Alice (later title)'' \<rparr>)
                                                   (speaker s) \<rparr>)
                     (e_sessions ex_item_1) \<rparr>"

text \<open>Two events with one identifier, one past and one to come.\<close>

definition ex_same_id :: collections where
  "ex_same_id =
     ex_collections en_glob
       [ex_event ''1'' 1577836800000 ''London'' [ex_speaker_session ''alice''],
        ex_event ''1'' 4070908800000 ''Paris'' [ex_speaker_session ''bob'']]"

text \<open>Two past events on one date.\<close>

definition ex_same_date :: collections where
  "ex_same_date =
     ex_collections en_glob
       [ex_event ''1'' 1577836800000 ''London'' [ex_speaker_session ''alice''],
        ex_event ''2'' 1577836800000 ''Paris'' [ex_speaker_session ''bob'']]"

text \<open>Past events of 2019, 2021 and 2020 and events to come of 2099 and 2050, in this order.\<close>

definition ex_unsorted :: collections where
  "ex_unsorted =
     ex_collections en_glob
       [ex_event ''1'' 1546300800000 ''London'' [ex_speaker_session ''alice''],
        ex_event ''2'' 4070908800000 ''Paris'' [ex_speaker_session ''bob''],
        ex_event ''3'' 1609459200000 ''Berlin'' [ex_speaker_session ''carol''],
        ex_event ''4'' 2524608000000 ''London'' [ex_panel_session [''alice'', ''bob'']],
        ex_event ''5'' 1577836800000 ''Paris'' [ex_panel_session []]]"

text \<open>A past event whose speaker is no key of the directory.\<close>

definition ex_ghost :: collections where
  "ex_ghost =
     ex_collections en_glob
       [ex_event ''1'' 1577836800000 ''London'' [ex_speaker_session ''ghost'']]"

text \<open>Collections with one event, under the French glob only.\<close>

definition ex_fr_only :: collections where
  "ex_fr_only =
     ex_collections ''./site/fr/meet-the-team/events/**/*.md''
       [ex_event ''1'' 1577836800000 ''London'' [ex_speaker_session ''alice'']]"

lemmas ex_defs = ex_authorsData_def ex_now_def ex_env_def ex_speaker_session_def
  ex_panel_session_def ex_event_def en_glob_def ex_collections_def

lemmas eval_defs = getEvents_def getEvents_event_def processSession_def getAuthorData_def
  authorsData_property_def Object_prototype_names_def
  pastEvents_def currentEvents_def array_sort_def sortAsc_def sortDesc_def Let_def
  session_img_class_def EVENT_PLACEHOLDER_def ex_defs

section \<open>Properties of the built-ins\<close>

lemma map_throw_Inr_iff:
  "map_throw f xs = Inr ys \<longleftrightarrow> list_all2 (\<lambda>x y. f x = Inr y) xs ys"
proof (induction xs arbitrary: ys)
  case Nil
  then show ?case by auto
next
  case (Cons x xs)
  show ?case
  proof (cases "f x")
    case (Inl e)
    then show ?thesis by (auto simp: list_all2_Cons1)
  next
    case fx: (Inr y)
    show ?thesis
    proof (cases "map_throw f xs")
      case (Inl e)
      then have "\<not> list_all2 (\<lambda>x y. f x = Inr y) xs zs" for zs
        using Cons.IH [of zs] by simp
      with fx Inl show ?thesis by (auto simp: list_all2_Cons1)
    next
      case (Inr zs)
      then have "list_all2 (\<lambda>x y. f x = Inr y) xs ws \<longleftrightarrow> ws = zs" for ws
        using Cons.IH [of ws] by auto
      with fx Inr show ?thesis by (auto simp: list_all2_Cons1)
    qed
  qed
qed

lemma map_throw_Inl_iff:
  "(\<exists>e. map_throw f xs = Inl e) \<longleftrightarrow> (\<exists>x \<in> set xs. \<exists>e. f x = Inl e)"
  by (induction xs) (auto split: sum.splits)

lemma map_throw_Inl_elem:
  "map_throw f xs = Inl e \<Longrightarrow> \<exists>x \<in> set xs. f x = Inl e"
  by (induction xs) (auto split: sum.splits)

lemma map_throw_total:
  "(\<And>x. x \<in> set xs \<Longrightarrow> \<exists>y. f x = Inr y) \<Longrightarrow> \<exists>ys. map_throw f xs = Inr ys"
proof (cases "map_throw f xs")
  case (Inl e)
  assume "\<And>x. x \<in> set xs \<Longrightarrow> \<exists>y. f x = Inr y"
  with map_throw_Inl_elem [OF Inl] show ?thesis by force
next
  case (Inr ys)
  then show ?thesis by blast
qed

lemma map_throw_filter_eq:
  "map_throw f xs = Inr ys \<Longrightarrow> (\<And>x y. f x = Inr y \<Longrightarrow> Q y = P x)
     \<Longrightarrow> map_throw f (filter P xs) = Inr (filter Q ys)"
proof (induction xs arbitrary: ys)
  case Nil
  then show ?case by simp
next
  case (Cons x xs)
  from Cons.prems(1) obtain y zs where fx: "f x = Inr y" and zs: "map_throw f xs = Inr zs"
    and ys: "ys = y # zs"
    by (auto split: sum.splits)
  from Cons.IH [OF zs Cons.prems(2)] have "map_throw f (filter P xs) = Inr (filter Q zs)" .
  with fx ys Cons.prems(2) [OF fx] show ?case by simp
qed

lemma map_throw_filter_cover:
  assumes "map_throw f (filter P xs) = Inr as" and "map_throw f (filter (\<lambda>x. \<not> P x) xs) = Inr bs"
  shows "\<exists>ys. map_throw f xs = Inr ys"
proof (cases "map_throw f xs")
  case (Inl e)
  then obtain x e' where x: "x \<in> set xs" "f x = Inl e'"
    using map_throw_Inl_iff [of f xs] by blast
  show ?thesis
  proof (cases "P x")
    case True
    with x have "\<exists>e. map_throw f (filter P xs) = Inl e"
      unfolding map_throw_Inl_iff by auto
    with assms(1) show ?thesis by simp
  next
    case False
    with x have "\<exists>e. map_throw f (filter (\<lambda>x. \<not> P x) xs) = Inl e"
      unfolding map_throw_Inl_iff by auto
    with assms(2) show ?thesis by simp
  qed
next
  case (Inr ys)
  then show ?thesis by blast
qed

lemma map_throw_map_field:
  "map_throw f xs = Inr ys \<Longrightarrow> (\<And>x y. f x = Inr y \<Longrightarrow> h y = g x) \<Longrightarrow> map h ys = map g xs"
  by (induction xs arbitrary: ys) (auto split: sum.splits)

lemma mset_sort_insert: "mset (sort_insert cmp x xs) = add_mset x (mset xs)"
  by (induction xs) auto

lemma mset_array_sort: "mset (array_sort cmp xs) = mset xs"
  unfolding array_sort_def by (induction xs) (auto simp: mset_sort_insert)

lemma set_array_sort: "set (array_sort cmp xs) = set xs"
  using mset_array_sort [of cmp xs] by (metis set_mset_mset)



lemma sorted_sort_insert:
  assumes tot: "\<And>a b. cmp a b \<le> 0 \<or> cmp b a \<le> 0"
    and tr: "\<And>a b c. cmp a b \<le> 0 \<Longrightarrow> cmp b c \<le> 0 \<Longrightarrow> cmp a c \<le> 0"
  shows "sorted_wrt (\<lambda>a b. cmp a b \<le> 0) xs \<Longrightarrow> sorted_wrt (\<lambda>a b. cmp a b \<le> 0) (sort_insert cmp x xs)"
proof (induction xs)
  case Nil
  then show ?case by simp
next
  case (Cons y ys)
  show ?case
  proof (cases "cmp x y \<le> 0")
    case True
    with Cons.prems tr show ?thesis by auto
  next
    case False
    then have yx: "cmp y x \<le> 0" using tot by blast
    have "set (sort_insert cmp x ys) = insert x (set ys)"
      using mset_sort_insert [of cmp x ys] by (metis set_mset_mset set_mset_add_mset_insert)
    with False yx Cons show ?thesis by auto
  qed
qed

lemma sorted_array_sort:
  assumes tot: "\<And>a b. cmp a b \<le> 0 \<or> cmp b a \<le> 0"
    and tr: "\<And>a b c. cmp a b \<le> 0 \<Longrightarrow> cmp b c \<le> 0 \<Longrightarrow> cmp a c \<le> 0"
  shows "sorted_wrt (\<lambda>a b. cmp a b \<le> 0) (array_sort cmp xs)"
  unfolding array_sort_def
proof (induction xs)
  case Nil
  then show ?case by simp
next
  case (Cons x xs)
  then show ?case using sorted_sort_insert [of cmp, OF tot tr] by simp
qed

lemma sorted_wrt_strict:
  "sorted_wrt P xs \<Longrightarrow> distinct (map f xs) \<Longrightarrow> (\<And>a b. P a b \<Longrightarrow> f a \<noteq> f b \<Longrightarrow> Q a b)
     \<Longrightarrow> sorted_wrt Q xs"
  by (induction xs) auto

lemma sorted_sortDesc: "sorted_wrt (\<lambda>a b. e_date b \<le> e_date a) (array_sort sortDesc xs)"
proof -
  have "sorted_wrt (\<lambda>a b. sortDesc a b \<le> 0) (array_sort sortDesc xs)"
    by (rule sorted_array_sort) (auto simp: sortDesc_def split: if_splits)
  then show ?thesis
    by (rule sorted_wrt_mono_rel [rotated]) (auto simp: sortDesc_def split: if_splits)
qed

lemma sorted_sortAsc: "sorted_wrt (\<lambda>a b. e_date a \<le> e_date b) (array_sort sortAsc xs)"
proof -
  have "sorted_wrt (\<lambda>a b. sortAsc a b \<le> 0) (array_sort sortAsc xs)"
    by (rule sorted_array_sort) (auto simp: sortAsc_def split: if_splits)
  then show ?thesis
    by (rule sorted_wrt_mono_rel [rotated]) (auto simp: sortAsc_def split: if_splits)
qed





lemma findIndex_ge: "- 1 \<le> findIndex P xs"
  by (induction xs) (auto simp: Let_def)

lemma findIndex_eq_iff:
  "findIndex P xs = int i \<longleftrightarrow> i < length xs \<and> P (xs ! i) \<and> (\<forall>j < i. \<not> P (xs ! j))"
proof (induction xs arbitrary: i)
  case Nil
  then show ?case by simp
next
  case (Cons x xs)
  show ?case
  proof (cases "P x")
    case True
    then show ?thesis by (cases i) auto
  next
    case False
    show ?thesis
    proof (cases i)
      case 0
      with False findIndex_ge [of P xs] show ?thesis by (auto simp: Let_def)
    next
      case (Suc k)
      have "findIndex P (x # xs) = int (Suc k) \<longleftrightarrow> findIndex P xs = int k"
        using False findIndex_ge [of P xs] by (auto simp: Let_def)
      also have "\<dots> \<longleftrightarrow> k < length xs \<and> P (xs ! k) \<and> (\<forall>j < k. \<not> P (xs ! j))"
        by (rule Cons.IH)
      also have "\<dots> \<longleftrightarrow> Suc k < length (x # xs) \<and> P ((x # xs) ! Suc k)
                         \<and> (\<forall>j < Suc k. \<not> P ((x # xs) ! j))"
        using False by (auto simp: less_Suc_eq_0_disj)
      finally show ?thesis using Suc by simp
    qed
  qed
qed

lemma filter_indexed_nth:
  "filter_indexed P xs = map (nth xs) (filter (\<lambda>i. P (xs ! i) i) [0 ..< length xs])"
proof -
  have "zip xs [0 ..< length xs] = map (\<lambda>i. (xs ! i, i)) [0 ..< length xs]"
    by (rule nth_equalityI) auto
  then show ?thesis
    by (simp add: filter_indexed_def filter_map comp_def)
qed

section \<open>Properties of the module\<close>

subsection \<open>Normalization and its failures\<close>

lemma getEvents_event_fields:
  "getEvents_event env locale event = Inr v \<Longrightarrow>
     e_id v = d_id event \<and> e_date v = d_date event \<and> e_location v = d_location event
     \<and> e_isPastEvent v = isPastEvent env event"
  by (auto simp: getEvents_event_def split: sum.splits)

lemma getEvents_all_iff:
  "getEvents env colls None None None = Inr all \<longleftrightarrow>
     map_throw (getEvents_event env ''en'') (getFilteredByGlob colls en_glob) = Inr all"
  by (auto simp: getEvents_def en_glob_def split: sum.splits)

lemma pastEvents_iff:
  "pastEvents env colls = Inr ps \<longleftrightarrow>
     (\<exists>zs. map_throw (getEvents_event env ''en'')
              (filter (isPastEvent env) (getFilteredByGlob colls en_glob)) = Inr zs
           \<and> ps = array_sort sortDesc zs)"
  by (auto simp: pastEvents_def getEvents_def en_glob_def split: sum.splits)

lemma currentEvents_iff:
  "currentEvents env colls = Inr cs \<longleftrightarrow>
     (\<exists>zs. map_throw (getEvents_event env ''en'')
              (filter (\<lambda>event. \<not> isPastEvent env event) (getFilteredByGlob colls en_glob)) = Inr zs
           \<and> cs = array_sort sortAsc zs)"
  by (auto simp: currentEvents_def getEvents_def en_glob_def split: sum.splits)

lemma getAuthorData_Inl_iff:
  "getAuthorData env h locale = Inl e \<longleftrightarrow>
     authorsData env h = None \<and> h \<notin> set Object_prototype_names \<and> e = InvalidAuthor h"
  by (auto simp: getAuthorData_def authorsData_property_def split: option.splits if_splits)

lemma getAuthorData_fails_iff:
  "(\<exists>e. getAuthorData env h locale = Inl e) \<longleftrightarrow>
     authorsData env h = None \<and> h \<notin> set Object_prototype_names"
  by (simp add: getAuthorData_Inl_iff)

lemma processSession_Inl_iff:
  "(\<exists>e. processSession env session locale = Inl e)
     \<longleftrightarrow> list_ex (\<lambda>h. authorsData env h = None \<and> h \<notin> set Object_prototype_names)
           (session_handles session)"
proof (cases "s_type session = ''speaker''")
  case True
  have "(\<exists>e. processSession env session locale = Inl e)
          \<longleftrightarrow> (\<exists>e. getAuthorData env (s_speaker session) locale = Inl e)"
    using True by (auto simp: processSession_def Let_def split: sum.splits)
  with True show ?thesis
    by (simp add: getAuthorData_fails_iff session_handles_def)
next
  case False
  have "(\<exists>e. map_throw (\<lambda>p. getAuthorData env p locale) (s_participants session) = Inl e)
          \<longleftrightarrow> (\<exists>h \<in> set (s_participants session).
                 authorsData env h = None \<and> h \<notin> set Object_prototype_names)"
    unfolding map_throw_Inl_iff by (simp add: getAuthorData_fails_iff)
  moreover have "(\<exists>e. processSession env session locale = Inl e)
          \<longleftrightarrow> (\<exists>e. map_throw (\<lambda>p. getAuthorData env p locale) (s_participants session) = Inl e)"
    using False by (auto simp: processSession_def Let_def split: sum.splits)
  ultimately show ?thesis
    using False by (simp add: session_handles_def list_ex_iff)
qed

lemma unknown_plain_author_unknown:
  "unknown_plain_author env event \<Longrightarrow> unknown_author env event"
  by (auto simp: unknown_plain_author_def unknown_author_def list_ex_iff)

text \<open>A handle that names an inherited property passes the guard: it resolves to the
  default avatar, though the directory has no such key.\<close>

lemma getAuthorData_inherited_name:
  "authorsData ex_env ''toString'' = None
   \<and> getAuthorData ex_env ''toString'' ''en'' =
       Inr \<lparr> p_image = ''image/default-avatar.jpg'', p_title = ''i18n.authors.toString.title'',
             p_twitter = None, p_linkedin = None, p_handle = ''toString'' \<rparr>"
  by (simp add: getAuthorData_def authorsData_property_def Object_prototype_names_def
      ex_env_def ex_authorsData_def)

lemma processSession_Inl_error:
  assumes "processSession env session locale = Inl e"
  shows "\<exists>h. e = InvalidAuthor h \<and> authorsData env h = None"
proof (cases "s_type session = ''speaker''")
  case True
  with assms show ?thesis
    by (auto simp: processSession_def Let_def getAuthorData_Inl_iff split: sum.splits)
next
  case False
  with assms have "map_throw (\<lambda>p. getAuthorData env p locale) (s_participants session) = Inl e"
    by (auto simp: processSession_def Let_def split: sum.splits)
  from map_throw_Inl_elem [OF this] show ?thesis
    by (auto simp: getAuthorData_Inl_iff)
qed

lemma getEvents_event_Inl_iff:
  "(\<exists>e. getEvents_event env locale event = Inl e) \<longleftrightarrow> unknown_plain_author env event"
proof -
  have "(\<exists>e. getEvents_event env locale event = Inl e)
          \<longleftrightarrow> (\<exists>e. map_throw (\<lambda>session. processSession env session locale) (d_sessions event) = Inl e)"
    by (auto simp: getEvents_event_def split: sum.splits)
  also have "\<dots> \<longleftrightarrow> (\<exists>s \<in> set (d_sessions event). \<exists>e. processSession env s locale = Inl e)"
    by (rule map_throw_Inl_iff)
  finally show ?thesis
    by (simp add: processSession_Inl_iff unknown_plain_author_def list_ex_iff)
qed

lemma getEvents_event_Inl_error:
  assumes "getEvents_event env locale event = Inl e"
  shows "\<exists>h. e = InvalidAuthor h \<and> authorsData env h = None"
proof -
  from assms have "map_throw (\<lambda>session. processSession env session locale) (d_sessions event) = Inl e"
    by (auto simp: getEvents_event_def split: sum.splits)
  from map_throw_Inl_elem [OF this] show ?thesis
    by (auto dest: processSession_Inl_error)
qed

lemma getEvents_Inl_iff:
  "(\<exists>e. getEvents env colls filterP sortC localeArg = Inl e)
     \<longleftrightarrow> list_ex (unknown_plain_author env) (retained colls filterP localeArg)"
proof -
  let ?l = "case localeArg of None \<Rightarrow> ''en'' | Some l \<Rightarrow> l"
  have "(\<exists>e. getEvents env colls filterP sortC localeArg = Inl e)
          \<longleftrightarrow> (\<exists>e. map_throw (getEvents_event env ?l) (retained colls filterP localeArg) = Inl e)"
    by (auto simp: getEvents_def retained_def Let_def split: sum.splits option.splits)
  also have "\<dots> \<longleftrightarrow> (\<exists>x \<in> set (retained colls filterP localeArg).
                          \<exists>e. getEvents_event env ?l x = Inl e)"
    by (rule map_throw_Inl_iff)
  finally show ?thesis
    by (simp add: getEvents_event_Inl_iff list_ex_iff)
qed

lemma getEvents_Inl_error:
  assumes "getEvents env colls filterP sortC localeArg = Inl e"
  shows "\<exists>h. e = InvalidAuthor h \<and> authorsData env h = None"
proof -
  let ?l = "case localeArg of None \<Rightarrow> ''en'' | Some l \<Rightarrow> l"
  from assms have "map_throw (getEvents_event env ?l) (retained colls filterP localeArg) = Inl e"
    by (auto simp: getEvents_def retained_def Let_def split: sum.splits option.splits)
  from map_throw_Inl_elem [OF this] show ?thesis
    by (auto dest: getEvents_event_Inl_error)
qed

text \<open>Normalized sessions always carry a speaker or a participants list.\<close>

lemma processSession_speakers:
  "processSession env session locale = Inr v \<Longrightarrow> \<exists>tags. session_speakers v = Inr tags"
  by (auto simp: processSession_def session_speakers_def Let_def split: sum.splits if_splits)

lemma getEvents_event_speakers:
  assumes "getEvents_event env locale event = Inr v"
  shows "\<exists>xss. map_throw session_speakers (e_sessions v) = Inr xss"
proof (rule map_throw_total)
  fix s assume s: "s \<in> set (e_sessions v)"
  from assms obtain ss where
    ss: "map_throw (\<lambda>session. processSession env session locale) (d_sessions event) = Inr ss"
    and v: "e_sessions v = ss"
    by (auto simp: getEvents_event_def split: sum.splits)
  from ss have "list_all2 (\<lambda>x y. processSession env x locale = Inr y) (d_sessions event) ss"
    by (simp add: map_throw_Inr_iff)
  with s v obtain r where "processSession env r locale = Inr s"
    by (auto simp: list_all2_conv_all_nth in_set_conv_nth)
  then show "\<exists>y. session_speakers s = Inr y" by (rule processSession_speakers)
qed

lemma getEvents_rawSpeakers:
  assumes "getEvents env colls filterP sortC localeArg = Inr events"
  shows "\<exists>raw. rawSpeakers events = Inr raw"
proof -
  let ?l = "case localeArg of None \<Rightarrow> ''en'' | Some l \<Rightarrow> l"
  from assms obtain zs where
    zs: "map_throw (getEvents_event env ?l) (retained colls filterP localeArg) = Inr zs"
    and ev: "set events = set zs"
    by (auto simp: getEvents_def retained_def Let_def set_array_sort split: sum.splits option.splits)
  from zs have l2: "list_all2 (\<lambda>x y. getEvents_event env ?l x = Inr y) (retained colls filterP localeArg) zs"
    by (simp add: map_throw_Inr_iff)
  have "\<exists>yss. map_throw (\<lambda>e. case map_throw session_speakers (e_sessions e) of
                             Inl err \<Rightarrow> Inl err
                           | Inr xss \<Rightarrow> Inr (concat xss)) events = Inr yss"
  proof (rule map_throw_total)
    fix e assume "e \<in> set events"
    with ev l2 obtain r where "getEvents_event env ?l r = Inr e"
      by (auto simp: list_all2_conv_all_nth in_set_conv_nth)
    from getEvents_event_speakers [OF this]
    show "\<exists>y. (case map_throw session_speakers (e_sessions e) of
                 Inl err \<Rightarrow> Inl err | Inr xss \<Rightarrow> Inr (concat xss)) = Inr y"
      by auto
  qed
  then show ?thesis by (auto simp: rawSpeakers_def)
qed

lemma eventTags_Inl_iff:
  "eventTags env colls = Inl e \<longleftrightarrow> getEvents env colls None None None = Inl e"
proof (cases "getEvents env colls None None None")
  case (Inl e')
  then show ?thesis by (simp add: eventTags_def)
next
  case (Inr events)
  from getEvents_rawSpeakers [OF Inr] obtain raw where "rawSpeakers events = Inr raw" by blast
  with Inr show ?thesis by (simp add: eventTags_def uniqueSpeakers_def Let_def)
qed

subsection \<open>First occurrences of handles\<close>

lemma first_handles_set:
  "set (first_handles raw) =
     nth raw ` {i. i < length raw \<and> (\<forall>j < i. handle (raw ! j) \<noteq> handle (raw ! i))}"
proof -
  have "(\<forall>j < i. handle (raw ! i) \<noteq> handle (raw ! j)) \<longleftrightarrow> (\<forall>j < i. handle (raw ! j) \<noteq> handle (raw ! i))"
    for i by (auto simp: eq_commute)
  then show ?thesis
    by (simp add: first_handles_def filter_indexed_nth findIndex_eq_iff)
qed


lemma first_handles_find:
  assumes "find (\<lambda>s. handle s = h) raw = Some s"
  shows "s \<in> set (first_handles raw) \<and> (\<forall>u \<in> set (first_handles raw). handle u = h \<longrightarrow> u = s)"
proof -
  from assms obtain i where i: "i < length raw" "handle (raw ! i) = h" "s = raw ! i"
    and least: "\<forall>j < i. handle (raw ! j) \<noteq> h"
    by (auto simp: find_Some_iff)
  then have "s \<in> set (first_handles raw)"
    unfolding first_handles_set by (auto simp: eq_commute)
  moreover have "u = s" if "u \<in> set (first_handles raw)" "handle u = h" for u
  proof -
    from that obtain k where k: "k < length raw" "u = raw ! k"
      "\<forall>j < k. handle (raw ! j) \<noteq> handle (raw ! k)"
      unfolding first_handles_set by blast
    have "k = i"
    proof (rule ccontr)
      assume "k \<noteq> i"
      then consider "k < i" | "i < k" by linarith
      then show False using k i least that(2) by cases auto
    qed
    with k i show ?thesis by simp
  qed
  ultimately show ?thesis by blast
qed


lemma uniqueSpeakers_eq:
  "rawSpeakers events = Inr raw \<Longrightarrow>
     uniqueSpeakers env events
       = Inr (array_sort (\<lambda>a b. localeCompare env (tag_title a) (tag_title b)) (first_handles raw))"
  by (simp add: uniqueSpeakers_def first_handles_def)

subsection \<open>The sample data\<close>




lemma ex_scenario_current: "currentEvents ex_env ex_scenario = Inr [ex_item_2]"
  by (simp add: eval_defs ex_scenario_def ex_item_2_def)

lemma ex_scenario_past: "pastEvents ex_env ex_scenario = Inr [ex_item_1]"
  by (simp add: eval_defs ex_scenario_def ex_item_1_def)

lemma ex_scenario_all: "getEvents ex_env ex_scenario None None None = Inr [ex_item_1, ex_item_2]"
  by (simp add: eval_defs ex_scenario_def ex_item_1_def ex_item_2_def)


lemma ex_retitled_raw:
  "rawSpeakers [ex_item_1, ex_item_2, ex_retitled] =
     Inr [\<lparr> handle = ''alice'', tag_title = ''i18n.authors.alice.title'' \<rparr>,
          \<lparr> handle = ''bob'', tag_title = ''i18n.authors.bob.title'' \<rparr>,
          \<lparr> handle = ''carol'', tag_title = ''i18n.authors.carol.title'' \<rparr>,
          \<lparr> handle = ''alice'', tag_title = ''Alice (later title)'' \<rparr>]"
  by (simp add: rawSpeakers_def session_speakers_def ex_retitled_def ex_item_1_def ex_item_2_def)

section \<open>The claims\<close>

subsection \<open>C1: past and current events partition the events\<close>

text \<open>
  Claim C1, amended. Whenever \<open>currentEvents\<close> and \<open>pastEvents\<close> both return, so does the
  unfiltered \<open>getEvents\<close>; the identifiers of the two lists together are the identifiers of
  all normalized events, and the two lists together hold every normalized event once (as
  multisets). The two sets of identifiers are disjoint when the identifiers of the raw events
  are pairwise distinct.
\<close>

theorem events_partition:
  assumes "currentEvents env colls = Inr cur"
    and "pastEvents env colls = Inr past"
  shows "\<exists>all. getEvents env colls None None None = Inr all
           \<and> set (map e_id cur) \<union> set (map e_id past) = set (map e_id all)
           \<and> mset cur + mset past = mset all
           \<and> (distinct (map d_id (getFilteredByGlob colls en_glob)) \<longrightarrow>
                set (map e_id cur) \<inter> set (map e_id past) = {})"
proof -
  let ?raw = "getFilteredByGlob colls en_glob"
  let ?f = "getEvents_event env ''en''"
  from assms(1) obtain cs where cs: "map_throw ?f (filter (\<lambda>event. \<not> isPastEvent env event) ?raw) = Inr cs"
    and cur: "cur = array_sort sortAsc cs"
    unfolding currentEvents_iff by blast
  from assms(2) obtain ps where ps: "map_throw ?f (filter (isPastEvent env) ?raw) = Inr ps"
    and past: "past = array_sort sortDesc ps"
    unfolding pastEvents_iff by blast
  from map_throw_filter_cover [OF ps cs] obtain all where all: "map_throw ?f ?raw = Inr all"
    by blast
  have flag: "\<And>x y. ?f x = Inr y \<Longrightarrow> e_isPastEvent y = isPastEvent env x"
    by (simp add: getEvents_event_fields)
  have "map_throw ?f (filter (isPastEvent env) ?raw) = Inr (filter e_isPastEvent all)"
    by (rule map_throw_filter_eq [OF all]) (simp add: flag)
  with ps have ps_eq: "ps = filter e_isPastEvent all" by simp
  have "map_throw ?f (filter (\<lambda>event. \<not> isPastEvent env event) ?raw)
          = Inr (filter (\<lambda>e. \<not> e_isPastEvent e) all)"
    by (rule map_throw_filter_eq [OF all]) (simp add: flag)
  with cs have cs_eq: "cs = filter (\<lambda>e. \<not> e_isPastEvent e) all" by simp
  have m: "mset cur + mset past = mset all"
    by (simp add: cur past mset_array_sort cs_eq ps_eq)
  have sets: "set cur = {e \<in> set all. \<not> e_isPastEvent e}" "set past = {e \<in> set all. e_isPastEvent e}"
    by (simp_all add: cur past set_array_sort cs_eq ps_eq)
  have u: "set (map e_id cur) \<union> set (map e_id past) = set (map e_id all)"
    using sets by auto
  have ids: "map e_id all = map d_id ?raw"
    by (rule map_throw_map_field [OF all]) (simp add: getEvents_event_fields)
  have d: "set (map e_id cur) \<inter> set (map e_id past) = {}" if "distinct (map d_id ?raw)"
  proof -
    from that ids have "distinct (map e_id all)" by simp
    then have "inj_on e_id (set all)" by (simp add: distinct_map)
    then show ?thesis using sets by (auto dest: inj_onD)
  qed
  from all m u d show ?thesis by (simp add: getEvents_all_iff)
qed

text \<open>C1 on the collections \<open>ex_scenario\<close>: event 2 is current, event 1 is past.\<close>

theorem events_partition_witness:
  "currentEvents ex_env ex_scenario = Inr [ex_item_2]
   \<and> pastEvents ex_env ex_scenario = Inr [ex_item_1]
   \<and> distinct (map d_id (getFilteredByGlob ex_scenario en_glob))
   \<and> getEvents ex_env ex_scenario None None None = Inr [ex_item_1, ex_item_2]
   \<and> set (map e_id [ex_item_2]) \<union> set (map e_id [ex_item_1]) = set (map e_id [ex_item_1, ex_item_2])
   \<and> set (map e_id [ex_item_2]) \<inter> set (map e_id [ex_item_1]) = {}"
proof -
  have d: "distinct (map d_id (getFilteredByGlob ex_scenario en_glob))"
    by (simp add: ex_scenario_def ex_defs)
  from events_partition [OF ex_scenario_current ex_scenario_past] d ex_scenario_all
  show ?thesis
    using ex_scenario_current ex_scenario_past by auto
qed

text \<open>
  Claim C1 as stated fails: nothing makes identifiers unique, and of two events with the
  identifier \<open>1\<close>, one past and one to come, \<open>currentEvents\<close> and \<open>pastEvents\<close> each return
  one, so that the two sets of identifiers meet.
\<close>

theorem events_partition_counterexample:
  "map_sum id (map e_id) (currentEvents ex_env ex_same_id) = Inr [''1'']
   \<and> map_sum id (map e_id) (pastEvents ex_env ex_same_id) = Inr [''1'']
   \<and> set [''1''] \<inter> set [''1''] \<noteq> ({} :: string set)"
  by (simp add: eval_defs ex_same_id_def)

subsection \<open>C2: order of the two lists\<close>

text \<open>
  Claim C2, amended. The list returned by \<open>pastEvents\<close> is sorted descending by date and the
  list returned by \<open>currentEvents\<close> ascending by date, events of equal date being allowed
  next to each other; the order is strict when the dates of the returned events are pairwise
  distinct.
\<close>

theorem events_sorted_by_date:
  "(pastEvents env colls = Inr past \<longrightarrow>
      sorted_wrt (\<lambda>a b. e_date b \<le> e_date a) past
      \<and> (distinct (map e_date past) \<longrightarrow> sorted_wrt (\<lambda>a b. e_date b < e_date a) past))
   \<and> (currentEvents env colls = Inr cur \<longrightarrow>
      sorted_wrt (\<lambda>a b. e_date a \<le> e_date b) cur
      \<and> (distinct (map e_date cur) \<longrightarrow> sorted_wrt (\<lambda>a b. e_date a < e_date b) cur))"
proof -
  have p: "sorted_wrt (\<lambda>a b. e_date b \<le> e_date a) past" if "pastEvents env colls = Inr past"
    using that sorted_sortDesc unfolding pastEvents_iff by blast
  have c: "sorted_wrt (\<lambda>a b. e_date a \<le> e_date b) cur" if "currentEvents env colls = Inr cur"
    using that sorted_sortAsc unfolding currentEvents_iff by blast
  have ps: "sorted_wrt (\<lambda>a b. e_date b < e_date a) past"
    if "pastEvents env colls = Inr past" "distinct (map e_date past)"
    by (rule sorted_wrt_strict [OF p [OF that(1)] that(2)]) auto
  have cs: "sorted_wrt (\<lambda>a b. e_date a < e_date b) cur"
    if "currentEvents env colls = Inr cur" "distinct (map e_date cur)"
    by (rule sorted_wrt_strict [OF c [OF that(1)] that(2)]) auto
  from p c ps cs show ?thesis by blast
qed

text \<open>C2 on \<open>ex_unsorted\<close>, whose events come in neither order.\<close>

theorem events_sorted_by_date_witness:
  "\<exists>past cur. pastEvents ex_env ex_unsorted = Inr past
     \<and> currentEvents ex_env ex_unsorted = Inr cur
     \<and> map e_id past = [''3'', ''5'', ''1''] \<and> map e_id cur = [''4'', ''2'']
     \<and> map e_date past = [1609459200000, 1577836800000, 1546300800000]
     \<and> map e_date cur = [2524608000000, 4070908800000]
     \<and> distinct (map e_date past) \<and> distinct (map e_date cur)
     \<and> sorted_wrt (\<lambda>a b. e_date b \<le> e_date a) past
     \<and> sorted_wrt (\<lambda>a b. e_date b < e_date a) past
     \<and> sorted_wrt (\<lambda>a b. e_date a \<le> e_date b) cur
     \<and> sorted_wrt (\<lambda>a b. e_date a < e_date b) cur"
proof -
  obtain past where p: "pastEvents ex_env ex_unsorted = Inr past"
    "map e_id past = [''3'', ''5'', ''1'']"
    "map e_date past = [1609459200000, 1577836800000, 1546300800000]"
    by (simp add: eval_defs ex_unsorted_def)
  obtain cur where c: "currentEvents ex_env ex_unsorted = Inr cur"
    "map e_id cur = [''4'', ''2'']"
    "map e_date cur = [2524608000000, 4070908800000]"
    by (simp add: eval_defs ex_unsorted_def)
  have d: "distinct (map e_date past)" "distinct (map e_date cur)"
    by (simp_all add: p c)
  from events_sorted_by_date [of ex_env ex_unsorted past cur] p(1) c(1) d
  have s: "sorted_wrt (\<lambda>a b. e_date b \<le> e_date a) past"
    "sorted_wrt (\<lambda>a b. e_date b < e_date a) past"
    "sorted_wrt (\<lambda>a b. e_date a \<le> e_date b) cur"
    "sorted_wrt (\<lambda>a b. e_date a < e_date b) cur"
    by simp_all
  show ?thesis
    by (intro exI [of _ past] exI [of _ cur] conjI) fact+
qed

text \<open>
  Claim C2 as stated fails: two past events of one date are both returned by \<open>pastEvents\<close>,
  and a list with two equal dates is not strictly descending.
\<close>

theorem events_sorted_by_date_counterexample:
  "map_sum id (map e_date) (pastEvents ex_env ex_same_date) = Inr [1577836800000, 1577836800000]
   \<and> \<not> sorted_wrt (\<lambda>a b. b < a) [1577836800000 :: int, 1577836800000]"
  by (simp add: eval_defs ex_same_date_def)

subsection \<open>C3: unknown authors\<close>

text \<open>
  Claim C3, amended. The events that a call normalizes are the events of the glob that pass
  its filter: for \<open>pastEvents\<close> the past events, for \<open>currentEvents\<close> the events that are not
  past, for \<open>eventTags\<close> and for \<open>getEvents\<close> without a filter all events of the glob. A call
  that fails has, among the events it normalizes, a session with a handle outside the
  directory; so a call raises nothing when every handle of these events is in the directory,
  and an unknown handle in an event that the filter drops raises nothing. A call fails
  whenever an event it normalizes has a session with a handle that is outside the directory
  and is not the name of a property that every object inherits (nothing is said here of a
  handle such as \<open>constructor\<close> or \<open>toString\<close>). Every failure is the error \<open>Invalid author\<close> of
  a handle outside the directory, and a failed call returns the error alone.
\<close>

theorem unknown_author_failure:
  "((\<exists>err. getEvents env colls filterP sortC localeArg = Inl err)
      \<longrightarrow> list_ex (unknown_author env) (retained colls filterP localeArg))
   \<and> (list_ex (unknown_plain_author env) (retained colls filterP localeArg)
      \<longrightarrow> (\<exists>err. getEvents env colls filterP sortC localeArg = Inl err))
   \<and> ((\<exists>err. pastEvents env colls = Inl err)
      \<longrightarrow> list_ex (\<lambda>event. isPastEvent env event \<and> unknown_author env event)
            (getFilteredByGlob colls en_glob))
   \<and> (list_ex (\<lambda>event. isPastEvent env event \<and> unknown_plain_author env event)
         (getFilteredByGlob colls en_glob)
      \<longrightarrow> (\<exists>err. pastEvents env colls = Inl err))
   \<and> ((\<exists>err. currentEvents env colls = Inl err)
      \<longrightarrow> list_ex (\<lambda>event. \<not> isPastEvent env event \<and> unknown_author env event)
            (getFilteredByGlob colls en_glob))
   \<and> (list_ex (\<lambda>event. \<not> isPastEvent env event \<and> unknown_plain_author env event)
         (getFilteredByGlob colls en_glob)
      \<longrightarrow> (\<exists>err. currentEvents env colls = Inl err))
   \<and> ((\<exists>err. eventTags env colls = Inl err)
      \<longrightarrow> list_ex (unknown_author env) (getFilteredByGlob colls en_glob))
   \<and> (list_ex (unknown_plain_author env) (getFilteredByGlob colls en_glob)
      \<longrightarrow> (\<exists>err. eventTags env colls = Inl err))
   \<and> (getEvents env colls filterP sortC localeArg = Inl err' \<or> pastEvents env colls = Inl err'
        \<or> currentEvents env colls = Inl err' \<or> eventTags env colls = Inl err'
      \<longrightarrow> (\<exists>h. err' = InvalidAuthor h \<and> authorsData env h = None))"
proof -
  have u: "list_ex (\<lambda>event. P event \<and> unknown_plain_author env event) xs
             \<Longrightarrow> list_ex (\<lambda>event. P event \<and> unknown_author env event) xs" for P xs
    by (auto simp: list_ex_iff dest: unknown_plain_author_unknown)
  have u': "list_ex (unknown_plain_author env) xs \<Longrightarrow> list_ex (unknown_author env) xs" for xs
    by (auto simp: list_ex_iff dest: unknown_plain_author_unknown)
  have g: "(\<exists>err. getEvents env colls filterP sortC localeArg = Inl err)
      \<longleftrightarrow> list_ex (unknown_plain_author env) (retained colls filterP localeArg)"
    by (rule getEvents_Inl_iff)
  have p: "(\<exists>err. pastEvents env colls = Inl err)
      \<longleftrightarrow> list_ex (\<lambda>event. isPastEvent env event \<and> unknown_plain_author env event)
            (getFilteredByGlob colls en_glob)"
    unfolding pastEvents_def getEvents_Inl_iff
    by (auto simp: retained_def en_glob_def list_ex_iff)
  have c: "(\<exists>err. currentEvents env colls = Inl err)
      \<longleftrightarrow> list_ex (\<lambda>event. \<not> isPastEvent env event \<and> unknown_plain_author env event)
            (getFilteredByGlob colls en_glob)"
    unfolding currentEvents_def getEvents_Inl_iff
    by (auto simp: retained_def en_glob_def list_ex_iff)
  have t: "(\<exists>err. eventTags env colls = Inl err)
      \<longleftrightarrow> list_ex (unknown_plain_author env) (getFilteredByGlob colls en_glob)"
    unfolding eventTags_Inl_iff getEvents_Inl_iff
    by (simp add: retained_def en_glob_def)
  have e: "\<exists>h. err' = InvalidAuthor h \<and> authorsData env h = None"
    if "getEvents env colls filterP sortC localeArg = Inl err' \<or> pastEvents env colls = Inl err'
        \<or> currentEvents env colls = Inl err' \<or> eventTags env colls = Inl err'"
    using that unfolding eventTags_Inl_iff pastEvents_def currentEvents_def
    by (auto dest: getEvents_Inl_error)
  have g1: "(\<exists>err. getEvents env colls filterP sortC localeArg = Inl err)
      \<longrightarrow> list_ex (unknown_author env) (retained colls filterP localeArg)"
    using g u' by blast
  have p1: "(\<exists>err. pastEvents env colls = Inl err)
      \<longrightarrow> list_ex (\<lambda>event. isPastEvent env event \<and> unknown_author env event)
            (getFilteredByGlob colls en_glob)"
    using p u [of "isPastEvent env"] by blast
  have c1: "(\<exists>err. currentEvents env colls = Inl err)
      \<longrightarrow> list_ex (\<lambda>event. \<not> isPastEvent env event \<and> unknown_author env event)
            (getFilteredByGlob colls en_glob)"
    using c u [of "\<lambda>event. \<not> isPastEvent env event"] by blast
  have t1: "(\<exists>err. eventTags env colls = Inl err)
      \<longrightarrow> list_ex (unknown_author env) (getFilteredByGlob colls en_glob)"
    using t u' by blast
  from g p c t e g1 p1 c1 t1 show ?thesis by blast
qed

text \<open>C3 on \<open>ex_ghost\<close>: \<open>pastEvents\<close> and \<open>eventTags\<close> fail, \<open>currentEvents\<close> does not.\<close>

theorem unknown_author_failure_witness:
  "list_ex (\<lambda>event. isPastEvent ex_env event \<and> unknown_plain_author ex_env event)
     (getFilteredByGlob ex_ghost en_glob)
   \<and> (\<exists>err. pastEvents ex_env ex_ghost = Inl err)
   \<and> \<not> (\<exists>err. currentEvents ex_env ex_ghost = Inl err)
   \<and> (\<exists>err. eventTags ex_env ex_ghost = Inl err)
   \<and> eventTags ex_env ex_ghost = Inl (InvalidAuthor ''ghost'')
   \<and> authorsData ex_env ''ghost'' = None"
proof -
  have e: "eventTags ex_env ex_ghost = Inl (InvalidAuthor ''ghost'')"
    by (simp add: eventTags_def eval_defs ex_ghost_def)
  have a: "authorsData ex_env ''ghost'' = None"
    by (simp add: ex_defs)
  have l: "list_ex (\<lambda>event. isPastEvent ex_env event \<and> unknown_plain_author ex_env event)
     (getFilteredByGlob ex_ghost en_glob)"
    "list_ex (unknown_plain_author ex_env) (getFilteredByGlob ex_ghost en_glob)"
    by (simp_all add: unknown_plain_author_def session_handles_def Object_prototype_names_def
        ex_ghost_def ex_defs)
  have n: "\<not> list_ex (\<lambda>event. \<not> isPastEvent ex_env event \<and> unknown_author ex_env event)
     (getFilteredByGlob ex_ghost en_glob)"
    by (simp add: unknown_author_def session_handles_def ex_ghost_def ex_defs)
  from unknown_author_failure [of ex_env ex_ghost None None None "InvalidAuthor ''ghost''"] l n e a
  show ?thesis by blast
qed

text \<open>
  Claim C3 as stated fails: the only event of \<open>ex_ghost\<close> is past and its speaker \<open>ghost\<close> is
  no key of the directory (and no name of an inherited property), yet \<open>currentEvents\<close>
  returns the empty list.
\<close>

theorem unknown_author_failure_counterexample:
  "list_ex (unknown_author ex_env) (getFilteredByGlob ex_ghost en_glob)
   \<and> list_ex (unknown_plain_author ex_env) (getFilteredByGlob ex_ghost en_glob)
   \<and> currentEvents ex_env ex_ghost = Inr []"
  by (simp add: unknown_author_def unknown_plain_author_def session_handles_def
      Object_prototype_names_def eval_defs ex_ghost_def)

subsection \<open>C4: title and image of a panel\<close>

text \<open>
  Claim C4. For a session whose type is not \<open>speaker\<close> and that normalizes: the participants
  of the result are the resolved authors of the handles, in their order; with exactly one
  participant the title is the title of that participant and the image is built from the
  image of that participant; otherwise the title is the label of the key
  \<open>i18n.events.multiple_participants\<close> (asked of \<open>i18n\<close> without a locale) and the image is
  built from \<open>chromeImg\<close>.
\<close>

theorem processSession_panel:
  assumes "s_type session \<noteq> ''speaker''"
    and "processSession env session locale = Inr v"
  shows "\<exists>ps. participants v = Some ps
           \<and> list_all2 (\<lambda>h p. getAuthorData env h locale = Inr p) (s_participants session) ps
           \<and> (length ps = 1 \<longrightarrow>
                 title v = p_title (ps ! 0)
                 \<and> image v = Img env \<lparr> src = p_image (ps ! 0), width = 40, height = 40,
                                       alt = p_title (ps ! 0), img_class = Some session_img_class \<rparr>)
           \<and> (length ps \<noteq> 1 \<longrightarrow>
                 title v = i18n env ''i18n.events.multiple_participants'' None
                 \<and> image v = Img env \<lparr> src = chromeImg env, width = 40, height = 40,
                                       alt = i18n env ''i18n.events.multiple_participants'' None,
                                       img_class = Some session_img_class \<rparr>)"
proof -
  from assms obtain ps where
    ps: "map_throw (\<lambda>p. getAuthorData env p locale) (s_participants session) = Inr ps"
    by (auto simp: processSession_def Let_def split: sum.splits)
  with assms have v: "participants v = Some ps"
    "length ps = 1 \<Longrightarrow> title v = p_title (ps ! 0)"
    "length ps = 1 \<Longrightarrow> image v = Img env \<lparr> src = p_image (ps ! 0), width = 40, height = 40,
                                       alt = p_title (ps ! 0), img_class = Some session_img_class \<rparr>"
    "length ps \<noteq> 1 \<Longrightarrow> title v = i18n env ''i18n.events.multiple_participants'' None"
    "length ps \<noteq> 1 \<Longrightarrow> image v = Img env \<lparr> src = chromeImg env, width = 40, height = 40,
                                       alt = i18n env ''i18n.events.multiple_participants'' None,
                                       img_class = Some session_img_class \<rparr>"
    by (auto simp: processSession_def Let_def)
  from ps have "list_all2 (\<lambda>h p. getAuthorData env h locale = Inr p) (s_participants session) ps"
    by (simp add: map_throw_Inr_iff)
  with v show ?thesis by blast
qed

text \<open>C4 on a panel of bob alone and on a panel of bob and carol.\<close>

theorem processSession_panel_witness:
  "s_type (ex_panel_session [''bob'']) \<noteq> ''speaker''
   \<and> s_type (ex_panel_session [''bob'', ''carol'']) \<noteq> ''speaker''
   \<and> map_sum id title (processSession ex_env (ex_panel_session [''bob'']) ''en'')
       = Inr ''i18n.authors.bob.title''
   \<and> map_sum id image (processSession ex_env (ex_panel_session [''bob'']) ''en'')
       = Inr ''image/default-avatar.jpg''
   \<and> map_sum id title (processSession ex_env (ex_panel_session [''bob'', ''carol'']) ''en'')
       = Inr ''i18n.events.multiple_participants''
   \<and> map_sum id image (processSession ex_env (ex_panel_session [''bob'', ''carol'']) ''en'')
       = Inr ''image/chrome.png''"
proof -
  have t: "s_type (ex_panel_session hs) \<noteq> ''speaker''" for hs
    by (simp add: ex_panel_session_def)
  obtain v1 where v1: "processSession ex_env (ex_panel_session [''bob'']) ''en'' = Inr v1"
    by (simp add: processSession_def getAuthorData_def authorsData_property_def Let_def ex_defs)
  obtain v2 where v2: "processSession ex_env (ex_panel_session [''bob'', ''carol'']) ''en'' = Inr v2"
    by (simp add: processSession_def getAuthorData_def authorsData_property_def Let_def ex_defs)
  from processSession_panel [OF t v1] obtain ps1 where
    p1: "list_all2 (\<lambda>h p. getAuthorData ex_env h ''en'' = Inr p) [''bob''] ps1"
    "length ps1 = 1 \<longrightarrow> title v1 = p_title (ps1 ! 0)
       \<and> image v1 = Img ex_env \<lparr> src = p_image (ps1 ! 0), width = 40, height = 40,
                       alt = p_title (ps1 ! 0), img_class = Some session_img_class \<rparr>"
    by (auto simp: ex_panel_session_def)
  from processSession_panel [OF t v2] obtain ps2 where
    p2: "list_all2 (\<lambda>h p. getAuthorData ex_env h ''en'' = Inr p) [''bob'', ''carol''] ps2"
    "length ps2 \<noteq> 1 \<longrightarrow> title v2 = i18n ex_env ''i18n.events.multiple_participants'' None
       \<and> image v2 = Img ex_env \<lparr> src = chromeImg ex_env, width = 40, height = 40,
                       alt = i18n ex_env ''i18n.events.multiple_participants'' None,
                       img_class = Some session_img_class \<rparr>"
    by (auto simp: ex_panel_session_def)
  from p1 have "title v1 = ''i18n.authors.bob.title''" "image v1 = ''image/default-avatar.jpg''"
    by (auto simp: list_all2_Cons1 getAuthorData_def authorsData_property_def ex_defs)
  moreover from p2 have "title v2 = ''i18n.events.multiple_participants''" "image v2 = ''image/chrome.png''"
    by (auto simp: list_all2_Cons1 ex_defs)
  ultimately show ?thesis using t v1 v2 by simp
qed

subsection \<open>C5: the facets\<close>



subsection \<open>C6: the first occurrence of a handle wins\<close>

text \<open>
  Claim C6. Of the flattened pairs \<open>raw\<close>, the first one with a handle \<open>h\<close> is an entry of the
  speakers facet, and it is the only entry with that handle: a later pair with the handle
  \<open>h\<close> and another title is dropped.
\<close>

theorem uniqueSpeakers_first_occurrence:
  assumes "rawSpeakers events = Inr raw"
    and "find (\<lambda>s. handle s = h) raw = Some s"
  shows "\<exists>us. uniqueSpeakers env events = Inr us \<and> s \<in> set us
           \<and> (\<forall>u \<in> set us. handle u = h \<longrightarrow> u = s)"
  using first_handles_find [OF assms(2)]
  by (simp add: uniqueSpeakers_eq [OF assms(1)] set_array_sort)

text \<open>C6 on three events where alice speaks twice, the second time under another title.\<close>

theorem uniqueSpeakers_first_occurrence_witness:
  "rawSpeakers [ex_item_1, ex_item_2, ex_retitled] =
     Inr [\<lparr> handle = ''alice'', tag_title = ''i18n.authors.alice.title'' \<rparr>,
          \<lparr> handle = ''bob'', tag_title = ''i18n.authors.bob.title'' \<rparr>,
          \<lparr> handle = ''carol'', tag_title = ''i18n.authors.carol.title'' \<rparr>,
          \<lparr> handle = ''alice'', tag_title = ''Alice (later title)'' \<rparr>]
   \<and> (\<exists>us. uniqueSpeakers ex_env [ex_item_1, ex_item_2, ex_retitled] = Inr us
          \<and> \<lparr> handle = ''alice'', tag_title = ''i18n.authors.alice.title'' \<rparr> \<in> set us
          \<and> \<lparr> handle = ''alice'', tag_title = ''Alice (later title)'' \<rparr> \<notin> set us)"
proof -
  have f: "find (\<lambda>s. handle s = ''alice'')
             [\<lparr> handle = ''alice'', tag_title = ''i18n.authors.alice.title'' \<rparr>,
              \<lparr> handle = ''bob'', tag_title = ''i18n.authors.bob.title'' \<rparr>,
              \<lparr> handle = ''carol'', tag_title = ''i18n.authors.carol.title'' \<rparr>,
              \<lparr> handle = ''alice'', tag_title = ''Alice (later title)'' \<rparr>]
           = Some \<lparr> handle = ''alice'', tag_title = ''i18n.authors.alice.title'' \<rparr>"
    by simp
  from uniqueSpeakers_first_occurrence [OF ex_retitled_raw f, of ex_env] obtain us where
    us: "uniqueSpeakers ex_env [ex_item_1, ex_item_2, ex_retitled] = Inr us"
    and first: "\<lparr> handle = ''alice'', tag_title = ''i18n.authors.alice.title'' \<rparr> \<in> set us"
    and only: "\<forall>u \<in> set us. handle u = ''alice''
                 \<longrightarrow> u = \<lparr> handle = ''alice'', tag_title = ''i18n.authors.alice.title'' \<rparr>"
    by blast
  have "\<lparr> handle = ''alice'', tag_title = ''Alice (later title)'' \<rparr> \<notin> set us"
  proof
    assume "\<lparr> handle = ''alice'', tag_title = ''Alice (later title)'' \<rparr> \<in> set us"
    with only have "\<lparr> handle = ''alice'', tag_title = ''Alice (later title)'' \<rparr>
                      = \<lparr> handle = ''alice'', tag_title = ''i18n.authors.alice.title'' \<rparr>"
      by (metis speaker_tag.select_convs(1))
    then show False by simp
  qed
  with us first ex_retitled_raw show ?thesis by blast
qed

subsection \<open>C7: sessions of a normalized event\<close>

text \<open>
  Claim C7. When a raw event normalizes, the sessions of the result are as many as the
  sessions of the raw event, and the \<open>i\<close>-th one is \<open>processSession\<close> of the \<open>i\<close>-th raw session.
\<close>

theorem getEvents_event_sessions:
  assumes "getEvents_event env locale event = Inr v"
  shows "length (e_sessions v) = length (d_sessions event)
         \<and> (\<forall>i < length (d_sessions event).
               processSession env (d_sessions event ! i) locale = Inr (e_sessions v ! i))"
proof -
  from assms obtain ss where
    ss: "map_throw (\<lambda>session. processSession env session locale) (d_sessions event) = Inr ss"
    and v: "e_sessions v = ss"
    by (auto simp: getEvents_event_def split: sum.splits)
  from ss have "list_all2 (\<lambda>x y. processSession env x locale = Inr y) (d_sessions event) ss"
    by (simp add: map_throw_Inr_iff)
  with v show ?thesis
    by (auto simp: list_all2_conv_all_nth)
qed

text \<open>C7 on the second event of \<open>ex_scenario\<close>.\<close>

theorem getEvents_event_sessions_witness:
  "getEvents_event ex_env ''en''
     (ex_event ''2'' 4070908800000 ''Paris'' [ex_panel_session [''bob'', ''carol'']]) = Inr ex_item_2
   \<and> length (e_sessions ex_item_2) = 1
   \<and> processSession ex_env (ex_panel_session [''bob'', ''carol'']) ''en'' = Inr (e_sessions ex_item_2 ! 0)"
proof -
  have h: "getEvents_event ex_env ''en''
     (ex_event ''2'' 4070908800000 ''Paris'' [ex_panel_session [''bob'', ''carol'']]) = Inr ex_item_2"
    by (simp add: eval_defs ex_item_2_def)
  from getEvents_event_sessions [OF h] h show ?thesis
    by (simp add: ex_event_def)
qed

subsection \<open>C8: the resolved author\<close>

text \<open>
  Claim C8, amended. For a handle that is a key of the directory, under every locale,
  \<open>getAuthorData\<close> returns: as title what \<open>i18n\<close> answers for the key
  \<open>i18n.authors.<handle>.title\<close> and the locale; as image the image of the record or, when
  the record has none, \<open>defaultAvatarImg\<close>; twitter and linkedin of the record; the handle
  itself.
\<close>

theorem getAuthorData_resolved:
  assumes "authorsData env authorHandle = Some authorData"
  shows "getAuthorData env authorHandle locale =
           Inr \<lparr> p_image = (case a_image authorData of Some i \<Rightarrow> i | None \<Rightarrow> defaultAvatarImg env),
                 p_title = i18n env (''i18n.authors.'' @ authorHandle @ ''.title'') (Some locale),
                 p_twitter = a_twitter authorData,
                 p_linkedin = a_linkedin authorData,
                 p_handle = authorHandle \<rparr>"
  using assms by (simp add: getAuthorData_def authorsData_property_def)

text \<open>C8 on bob, whose record has no image.\<close>

theorem getAuthorData_resolved_witness:
  "authorsData ex_env ''bob'' = Some \<lparr> a_image = None, a_twitter = None, a_linkedin = Some ''bob_li'' \<rparr>
   \<and> getAuthorData ex_env ''bob'' ''en'' =
       Inr \<lparr> p_image = ''image/default-avatar.jpg'', p_title = ''i18n.authors.bob.title'',
             p_twitter = None, p_linkedin = Some ''bob_li'', p_handle = ''bob'' \<rparr>"
proof -
  have h: "authorsData ex_env ''bob'' = Some \<lparr> a_image = None, a_twitter = None, a_linkedin = Some ''bob_li'' \<rparr>"
    by (simp add: ex_env_def ex_authorsData_def)
  show ?thesis
    using h getAuthorData_resolved [OF h, of "''en''"] by (simp add: ex_env_def)
qed

text \<open>
  Claim C8 as stated fails: the key asked of \<open>i18n\<close> starts with \<open>i18n.authors.\<close>, not with
  \<open>events.authors.\<close>. Under an \<open>i18n\<close> that answers with its key, the title of alice is not
  the answer for \<open>events.authors.alice.title\<close>.
\<close>

theorem getAuthorData_events_key_counterexample:
  "authorsData ex_env ''alice'' \<noteq> None
   \<and> map_sum id p_title (getAuthorData ex_env ''alice'' ''en'') = Inr ''i18n.authors.alice.title''
   \<and> i18n ex_env (''events.authors.'' @ ''alice'' @ ''.title'') (Some ''en'')
       = ''events.authors.alice.title''
   \<and> map_sum id p_title (getAuthorData ex_env ''alice'' ''en'')
       \<noteq> Inr (i18n ex_env (''events.authors.'' @ ''alice'' @ ''.title'') (Some ''en''))"
  by (simp add: getAuthorData_def authorsData_property_def ex_env_def ex_authorsData_def)

subsection \<open>C9: the locale of the entry points\<close>

text \<open>
  Claim C9, amended. \<open>pastEvents\<close>, \<open>currentEvents\<close> and \<open>eventTags\<close> take the collections and
  no locale: each calls \<open>getEvents\<close> without \<open>locale\<close>, which is then \<open>en\<close>. Their results are
  those of \<open>getEvents\<close> for the locale \<open>en\<close>, and they depend on the collections through the
  events of the glob \<open>./site/en/meet-the-team/events/**/*.md\<close> only.
\<close>

theorem entry_points_english_only:
  "pastEvents env colls = getEvents env colls (Some (isPastEvent env)) (Some sortDesc) (Some ''en'')
   \<and> currentEvents env colls
       = getEvents env colls (Some (\<lambda>event. \<not> isPastEvent env event)) (Some sortAsc) (Some ''en'')
   \<and> eventTags env colls
       = (case getEvents env colls None None (Some ''en'') of
            Inl err \<Rightarrow> Inl err
          | Inr events \<Rightarrow>
              (case uniqueSpeakers env events of
                 Inl err \<Rightarrow> Inl err
               | Inr sps \<Rightarrow> Inr \<lparr> locations = uniqueLocations env events, speakers = sps,
                                  topics_tags = uniqueTopics env events \<rparr>))
   \<and> (getFilteredByGlob colls en_glob = getFilteredByGlob colls' en_glob \<longrightarrow>
        pastEvents env colls = pastEvents env colls'
        \<and> currentEvents env colls = currentEvents env colls'
        \<and> eventTags env colls = eventTags env colls')"
  by (auto simp: pastEvents_def currentEvents_def eventTags_def getEvents_def en_glob_def Let_def
      split: sum.splits)

text \<open>C9 on collections that differ under the French glob only.\<close>

theorem entry_points_english_only_witness:
  "getFilteredByGlob ex_fr_only en_glob = getFilteredByGlob (ex_collections en_glob []) en_glob
   \<and> pastEvents ex_env ex_fr_only = pastEvents ex_env (ex_collections en_glob [])
   \<and> pastEvents ex_env (ex_collections en_glob []) = Inr []"
proof -
  have h: "getFilteredByGlob ex_fr_only en_glob = getFilteredByGlob (ex_collections en_glob []) en_glob"
    by (simp add: ex_fr_only_def ex_defs)
  have e: "pastEvents ex_env (ex_collections en_glob []) = Inr []"
    by (simp add: eval_defs)
  have "pastEvents ex_env ex_fr_only = pastEvents ex_env (ex_collections en_glob [])"
    using entry_points_english_only [of ex_env ex_fr_only "ex_collections en_glob []"] h by blast
  with h e show ?thesis by simp
qed

text \<open>
  Claim C9 as stated fails: on collections whose only event is under the French glob,
  \<open>getEvents\<close> for the locale \<open>fr\<close> returns that event, and \<open>pastEvents\<close>, which cannot be given a
  locale, returns the empty list.
\<close>

theorem entry_points_english_only_counterexample:
  "map_sum id (map e_id)
     (getEvents ex_env ex_fr_only (Some (isPastEvent ex_env)) (Some sortDesc) (Some ''fr''))
     = Inr [''1'']
   \<and> pastEvents ex_env ex_fr_only = Inr []"
  by (simp add: eval_defs ex_fr_only_def)

subsection \<open>C10: a panel without participants\<close>

text \<open>
  Claim C10. A session whose type is not \<open>speaker\<close> and whose participants are the empty list
  normalizes without an error: the participants of the result are the empty list, its title
  is the label of the key \<open>i18n.events.multiple_participants\<close> and its image is built from
  \<open>chromeImg\<close>.
\<close>

theorem processSession_empty_panel:
  assumes "s_type session \<noteq> ''speaker''"
    and "s_participants session = []"
  shows "\<exists>v. processSession env session locale = Inr v
           \<and> participants v = Some []
           \<and> title v = i18n env ''i18n.events.multiple_participants'' None
           \<and> image v = Img env \<lparr> src = chromeImg env, width = 40, height = 40,
                                 alt = i18n env ''i18n.events.multiple_participants'' None,
                                 img_class = Some session_img_class \<rparr>"
  using assms by (simp add: processSession_def Let_def)

text \<open>C10 on a panel without participants.\<close>

theorem processSession_empty_panel_witness:
  "s_type (ex_panel_session []) \<noteq> ''speaker'' \<and> s_participants (ex_panel_session []) = []
   \<and> (\<exists>v. processSession ex_env (ex_panel_session []) ''en'' = Inr v
          \<and> participants v = Some []
          \<and> title v = ''i18n.events.multiple_participants''
          \<and> image v = ''image/chrome.png'')"
proof -
  have h: "s_type (ex_panel_session []) \<noteq> ''speaker''" "s_participants (ex_panel_session []) = []"
    by (simp_all add: ex_panel_session_def)
  from processSession_empty_panel [OF h, of ex_env "''en''"] h
  show ?thesis by (simp add: ex_env_def)
qed

end
